theory Spec2Isabelle
  imports
    Main
    "HOL-Library.Char_ord"
    "HOL-Library.List_Lexorder"
    "HOL-Library.Product_Lexorder"
    "HOL-Library.AList"
    "HOL-Library.Multiset"
begin

section \<open>JavaScript values and objects\<close>

text \<open>
  The values that occur in the tally documents and in the report records of
  \<^verbatim>\<open>ReferenceTally.jsx\<close>: numbers (the counters are integers, so a number is an
  unbounded \<open>int\<close>, or \<open>NaN\<close>), strings, \<open>null\<close>, \<open>undefined\<close>, and objects.
  An object value (a store timestamp is the only one the program writes) is represented by
  the string that its conversion to a primitive yields, which is all that \<open>+\<close> and
  \<open>'' + value\<close> look at.  Number overflow, fractions and booleans are outside the model.
\<close>

datatype jsval = Num int | NaN | Str string | Null | Undefined | Obj string

definition digit_char :: "nat \<Rightarrow> char" where
  "digit_char d = ''0123456789'' ! d"

fun digits :: "nat \<Rightarrow> string" where
  "digits n = (if n < 10 then [digit_char n] else digits (n div 10) @ [digit_char (n mod 10)])"

definition number_to_string :: "int \<Rightarrow> string" where
  "number_to_string i = (if i < 0 then CHR ''-'' # digits (nat (- i)) else digits (nat i))"

text \<open>String coercion, \<^verbatim>\<open>'' + value\<close>.\<close>

fun to_string :: "jsval \<Rightarrow> string" where
  "to_string (Num i) = number_to_string i"
| "to_string NaN = ''NaN''"
| "to_string (Str s) = s"
| "to_string Null = ''null''"
| "to_string Undefined = ''undefined''"
| "to_string (Obj s) = s"

fun truthy :: "jsval \<Rightarrow> bool" where
  "truthy (Num i) = (i \<noteq> 0)"
| "truthy NaN = False"
| "truthy (Str s) = (s \<noteq> [])"
| "truthy Null = False"
| "truthy Undefined = False"
| "truthy (Obj s) = True"

text \<open>\<^verbatim>\<open>a || b\<close>\<close>

definition js_or :: "jsval \<Rightarrow> jsval \<Rightarrow> jsval" where
  "js_or a b = (if truthy a then a else b)"

fun to_primitive :: "jsval \<Rightarrow> jsval" where
  "to_primitive (Obj s) = Str s"
| "to_primitive v = v"

fun is_Str :: "jsval \<Rightarrow> bool" where
  "is_Str (Str s) = True"
| "is_Str v = False"

text \<open>Numeric coercion; \<open>None\<close> stands for \<open>NaN\<close>.\<close>

fun to_number :: "jsval \<Rightarrow> int option" where
  "to_number (Num i) = Some i"
| "to_number Null = Some 0"
| "to_number v = None"

text \<open>\<^verbatim>\<open>a + b\<close>: concatenation when either primitive is a string, addition otherwise.\<close>

definition js_add :: "jsval \<Rightarrow> jsval \<Rightarrow> jsval" where
  "js_add a b =
     (let pa = to_primitive a; pb = to_primitive b in
      if is_Str pa \<or> is_Str pb then Str (to_string pa @ to_string pb)
      else (case (to_number pa, to_number pb) of
              (Some x, Some y) \<Rightarrow> Num (x + y)
            | _ \<Rightarrow> NaN))"

text \<open>
  A document, a day of the weekly summary and the totals object are only ever read by key,
  so they are maps.  A record handed to the CSV formatter is a property list: the own
  properties of an ordinary object, in the order in which \<^verbatim>\<open>Object.keys\<close> enumerates
  them, with distinct keys.
\<close>

type_synonym object = "string \<rightharpoonup> jsval"

type_synonym row = "(string \<times> jsval) list"

datatype js_error = TypeError | FirestoreError

text \<open>
  \<^verbatim>\<open>obj[key]\<close> on a document, a day or the totals object.  The keys read there are the
  category ids, \<^verbatim>\<open>date\<close> and \<^verbatim>\<open>grandTotal\<close>, none of which is inherited, so a
  missing property reads as \<open>undefined\<close>.
\<close>

definition field :: "object \<Rightarrow> string \<Rightarrow> jsval" where
  "field obj k = (case obj k of None \<Rightarrow> Undefined | Some v \<Rightarrow> v)"

text \<open>
  The properties every ordinary object inherits from \<^verbatim>\<open>Object.prototype\<close>: the
  built-in methods, each a function whose string form is its native source text (as V8
  prints it), and the accessor \<^verbatim>\<open>__proto__\<close>, which yields the prototype object.
\<close>

definition native_function :: "string \<Rightarrow> jsval" where
  "native_function name = Obj (''function '' @ name @ ''() { [native code] }'')"

definition object_prototype :: row where
  "object_prototype =
     [(''constructor'', native_function ''Object''),
      (''__defineGetter__'', native_function ''__defineGetter__''),
      (''__defineSetter__'', native_function ''__defineSetter__''),
      (''hasOwnProperty'', native_function ''hasOwnProperty''),
      (''__lookupGetter__'', native_function ''__lookupGetter__''),
      (''__lookupSetter__'', native_function ''__lookupSetter__''),
      (''isPrototypeOf'', native_function ''isPrototypeOf''),
      (''propertyIsEnumerable'', native_function ''propertyIsEnumerable''),
      (''toString'', native_function ''toString''),
      (''valueOf'', native_function ''valueOf''),
      (''toLocaleString'', native_function ''toLocaleString''),
      (''__proto__'', Obj ''[object Object]'')]"

text \<open>
  \<^verbatim>\<open>row[header]\<close> on a record (line 90): the own property when there is one, else the
  inherited one, else \<open>undefined\<close>.
\<close>

definition get_prop :: "row \<Rightarrow> string \<Rightarrow> jsval" where
  "get_prop r k =
     (case map_of r k of
        Some v \<Rightarrow> v
      | None \<Rightarrow> (case map_of object_prototype k of Some v \<Rightarrow> v | None \<Rightarrow> Undefined))"


section \<open>Category registry\<close>

text \<open>
  \<^verbatim>\<open>QUESTION_TYPES\<close>, with the two fields the logic reads; \<^verbatim>\<open>color\<close>,
  \<^verbatim>\<open>description\<close> and \<^verbatim>\<open>example\<close> are only rendered.
\<close>

record question_type =
  type_id :: string
  type_name :: string

definition QUESTION_TYPES :: "question_type list" where
  "QUESTION_TYPES =
     [\<lparr>type_id = ''directional'', type_name = ''Directional''\<rparr>,
      \<lparr>type_id = ''quick_fact'', type_name = ''Quick Fact/Ready Ref.''\<rparr>,
      \<lparr>type_id = ''procedural'', type_name = ''Policy/Procedural''\<rparr>,
      \<lparr>type_id = ''research'', type_name = ''Research/Complex''\<rparr>,
      \<lparr>type_id = ''technology'', type_name = ''Technology/Equip.''\<rparr>]"


section \<open>CSV formatter\<close>

text \<open>\<^verbatim>\<open>Array.prototype.join\<close> on an array of strings.\<close>

fun join :: "string \<Rightarrow> string list \<Rightarrow> string" where
  "join sep [] = []"
| "join sep [x] = x"
| "join sep (x # y # ys) = x @ sep @ join sep (y # ys)"

text \<open>\<^verbatim>\<open>s.replace(/"/g, '""')\<close>: a left-to-right scan replacing every match.\<close>

fun replace_quotes :: "string \<Rightarrow> string" where
  "replace_quotes [] = []"
| "replace_quotes (c # s) =
     (if c = CHR 0x22 then CHR 0x22 # CHR 0x22 # replace_quotes s else c # replace_quotes s)"

text \<open>The array \<^verbatim>\<open>values\<close> built for one row (lines 89-94).\<close>

definition csv_values :: "string list \<Rightarrow> row \<Rightarrow> string list" where
  "csv_values headers r =
     map (\<lambda>header.
            let value = get_prop r header;
                escaped = replace_quotes (to_string value)
            in [CHR 0x22] @ escaped @ [CHR 0x22])
         headers"

text \<open>The array \<^verbatim>\<open>csvRows\<close> for a non-empty input whose first record is \<open>first\<close>.\<close>

definition csvRows :: "row \<Rightarrow> row list \<Rightarrow> string list" where
  "csvRows first data =
     (let headers = map fst first in
      join '','' headers # map (\<lambda>r. join '','' (csv_values headers r)) data)"

definition convertToCSV :: "row list \<Rightarrow> string" where
  "convertToCSV data =
     (case data of
        [] \<Rightarrow> []
      | first # rest \<Rightarrow> join [CHR 0x0A] (csvRows first data))"

text \<open>
  The formatter on any array it can be handed.  An element is a record or
  \<^verbatim>\<open>null\<close>/\<^verbatim>\<open>undefined\<close> (\<open>None\<close>); a value is one of the values above or one
  that has no string form: a symbol, or an object with neither \<^verbatim>\<open>toString\<close> nor
  \<^verbatim>\<open>valueOf\<close>.  \<^verbatim>\<open>Object.keys\<close> of a missing first element (line 81), a property
  read on a missing element (line 90) and \<^verbatim>\<open>'' + value\<close> on a value without string form
  (line 92) raise a \<^verbatim>\<open>TypeError\<close>, which leaves the function.
\<close>

datatype any_value = Plain jsval | Sym | BareObj

type_synonym any_row = "(string \<times> any_value) list"

fun coerce_string :: "any_value \<Rightarrow> js_error + string" where
  "coerce_string (Plain v) = Inr (to_string v)"
| "coerce_string Sym = Inl TypeError"
| "coerce_string BareObj = Inl TypeError"

definition any_get_prop :: "any_row \<Rightarrow> string \<Rightarrow> any_value" where
  "any_get_prop r k =
     (case map_of r k of
        Some v \<Rightarrow> v
      | None \<Rightarrow> (case map_of object_prototype k of Some v \<Rightarrow> Plain v | None \<Rightarrow> Plain Undefined))"

text \<open>\<^verbatim>\<open>Array.prototype.map\<close> with a callback that may raise: the first raise ends it.\<close>

fun map_result :: "('a \<Rightarrow> js_error + 'b) \<Rightarrow> 'a list \<Rightarrow> js_error + 'b list" where
  "map_result f [] = Inr []"
| "map_result f (x # xs) =
     (case f x of
        Inl e \<Rightarrow> Inl e
      | Inr y \<Rightarrow> (case map_result f xs of Inl e \<Rightarrow> Inl e | Inr ys \<Rightarrow> Inr (y # ys)))"

definition any_csv_values :: "string list \<Rightarrow> any_row option \<Rightarrow> js_error + string list" where
  "any_csv_values headers element =
     map_result (\<lambda>header.
         case element of
           None \<Rightarrow> Inl TypeError
         | Some r \<Rightarrow>
             (case coerce_string (any_get_prop r header) of
                Inl e \<Rightarrow> Inl e
              | Inr s \<Rightarrow> Inr ([CHR 0x22] @ replace_quotes s @ [CHR 0x22])))
       headers"

definition any_convertToCSV :: "any_row option list \<Rightarrow> js_error + string" where
  "any_convertToCSV data =
     (case data of
        [] \<Rightarrow> Inr []
      | None # rest \<Rightarrow> Inl TypeError
      | Some first # rest \<Rightarrow>
          (let headers = map fst first in
           case map_result (\<lambda>element.
                    case any_csv_values headers element of
                      Inl e \<Rightarrow> Inl e
                    | Inr values \<Rightarrow> Inr (join '','' values))
                  data of
             Inl e \<Rightarrow> Inl e
           | Inr lines \<Rightarrow> Inr (join [CHR 0x0A] (join '','' headers # lines))))"

text \<open>A record of the first kind, seen as an element of such an array.\<close>

definition plain_row :: "row \<Rightarrow> any_row option" where
  "plain_row r = Some (map (\<lambda>(k, v). (k, Plain v)) r)"

text \<open>
  The spec's wording of the escaping, for comparison with \<open>replace_quotes\<close>: every double
  quote is doubled.  \<open>undouble\<close> is the reader's side: it collapses each pair of quotes.
\<close>

definition double_each_quote :: "string \<Rightarrow> string" where
  "double_each_quote s = concat (map (\<lambda>c. if c = CHR 0x22 then [CHR 0x22, CHR 0x22] else [c]) s)"

fun undouble :: "string \<Rightarrow> string" where
  "undouble [] = []"
| "undouble [c] = [c]"
| "undouble (c # d # s) =
     (if c = CHR 0x22 \<and> d = CHR 0x22 then CHR 0x22 # undouble s else c # undouble (d # s))"


section \<open>Application state and the document store\<close>

text \<open>
  The component state the handlers read and write.  \<open>db\<close> is whether the store handle is
  set, \<open>error\<close> is the single error message (\<open>None\<close> for \<^verbatim>\<open>null\<close>).  The
  collection is a list of (document id, data) with distinct ids.
  The snapshot listener, the hover state and the printing flag take no part in the handlers
  below and are left out.
\<close>

record app_state =
  db :: bool
  isAuthReady :: bool
  userId :: jsval
  weeklySummary :: "object list"
  loading :: bool
  error :: "string option"

type_synonym store = "(string \<times> object) list"

text \<open>
  A daily document as \<open>handleCount\<close> writes it: its id is the date id
  \<^verbatim>\<open>YYYY-MM-DD\<close> and its \<^verbatim>\<open>date\<close> field holds the same string.
\<close>

definition is_digit :: "char \<Rightarrow> bool" where
  "is_digit c = (CHR ''0'' \<le> c \<and> c \<le> CHR ''9'')"

definition is_date_id :: "string \<Rightarrow> bool" where
  "is_date_id s =
     (length s = 10 \<and> s ! 4 = CHR ''-'' \<and> s ! 7 = CHR ''-'' \<and>
      list_all (\<lambda>i. is_digit (s ! i)) [0, 1, 2, 3, 5, 6, 8, 9])"

definition daily_document :: "string \<times> object \<Rightarrow> bool" where
  "daily_document doc = (is_date_id (fst doc) \<and> snd doc ''date'' = Some (Str (fst doc)))"

definition daily_store :: "store \<Rightarrow> bool" where
  "daily_store s = (distinct (map fst s) \<and> list_all daily_document s)"


section \<open>Counting: \<open>handleCount\<close>\<close>

text \<open>
  \<^verbatim>\<open>runTransaction\<close> either commits the effect of its body on the store in one step or
  rejects and leaves the store as it was; which of the two happens is decided by the store.
  \<open>now\<close> is the value the server writes for \<^verbatim>\<open>serverTimestamp()\<close>.
\<close>

datatype tx_outcome = Committed | Rejected

definition initialData :: object where
  "initialData = foldl (\<lambda>acc t. acc(type_id t \<mapsto> Num 0)) Map.empty QUESTION_TYPES"

text \<open>
  The store's \<^verbatim>\<open>increment(k)\<close> transform: added to a number, and written as it is over
  a missing field or a field that is not a number.
\<close>

definition firestore_increment :: "int \<Rightarrow> jsval option \<Rightarrow> jsval" where
  "firestore_increment k cur =
     (case cur of Some (Num n) \<Rightarrow> Num (n + k) | Some NaN \<Rightarrow> NaN | _ \<Rightarrow> Num k)"

definition transaction_body :: "jsval \<Rightarrow> jsval \<Rightarrow> string \<Rightarrow> string \<Rightarrow> store \<Rightarrow> store" where
  "transaction_body now uid TODAY_DATE typeId s =
     (case map_of s TODAY_DATE of
        None \<Rightarrow>
          AList.update TODAY_DATE
            (initialData(typeId \<mapsto> Num 1, ''createdAt'' \<mapsto> now,
               ''lastUpdatedBy'' \<mapsto> uid, ''date'' \<mapsto> Str TODAY_DATE)) s
      | Some d \<Rightarrow>
          AList.update TODAY_DATE
            (d(typeId \<mapsto> firestore_increment 1 (d typeId),
               ''lastUpdatedBy'' \<mapsto> uid, ''updatedAt'' \<mapsto> now)) s)"

definition handleCount ::
  "tx_outcome \<Rightarrow> jsval \<Rightarrow> string \<Rightarrow> string \<Rightarrow> app_state \<times> store \<Rightarrow> app_state \<times> store" where
  "handleCount outcome now TODAY_DATE typeId = (\<lambda>(st, s).
     if \<not> db st then (st\<lparr>error := Some ''Database not connected.''\<rparr>, s)
     else (case outcome of
             Committed \<Rightarrow>
               (st\<lparr>error := None\<rparr>, transaction_body now (userId st) TODAY_DATE typeId s)
           | Rejected \<Rightarrow>
               (st\<lparr>error := Some ''Failed to record count. Please check connection.''\<rparr>, s)))"

text \<open>The reading of a counter that the spec uses: a missing field counts as 0.\<close>

definition count_field :: "object \<Rightarrow> string \<Rightarrow> int" where
  "count_field obj k = (case obj k of Some (Num n) \<Rightarrow> n | _ \<Rightarrow> 0)"

definition numeric_or_missing :: "jsval option \<Rightarrow> bool" where
  "numeric_or_missing v = (case v of None \<Rightarrow> True | Some (Num n) \<Rightarrow> True | _ \<Rightarrow> False)"

definition numeric_totals :: "object \<Rightarrow> bool" where
  "numeric_totals totals = (\<forall>k. numeric_or_missing (totals k))"


section \<open>Weekly aggregation: \<open>fetchWeeklySummary\<close> and \<open>weeklyTotals\<close>\<close>

text \<open>
  The store's order on field values: by type first (null, numbers with NaN lowest,
  timestamps, strings), then by value.
\<close>

fun firestore_key :: "jsval \<Rightarrow> nat \<times> int \<times> string" where
  "firestore_key Null = (0, 0, [])"
| "firestore_key Undefined = (0, 0, [])"
| "firestore_key NaN = (1, 0, [])"
| "firestore_key (Num n) = (2, n, [])"
| "firestore_key (Obj s) = (3, 0, s)"
| "firestore_key (Str s) = (4, 0, s)"

text \<open>
  \<^verbatim>\<open>query(collectionRef, orderBy('date', 'desc'), limit(n))\<close>: the documents that have
  the field, by descending field value (equal values by descending id), cut after \<open>n\<close>.
\<close>

definition getDocs_orderBy_date_desc_limit :: "nat \<Rightarrow> store \<Rightarrow> store" where
  "getDocs_orderBy_date_desc_limit n s =
     take n (rev (sort_key (\<lambda>doc. (firestore_key (field (snd doc) ''date''), fst doc))
                    (filter (\<lambda>doc. snd doc ''date'' \<noteq> None) s)))"

text \<open>\<^verbatim>\<open>weeklyData.push({ date: doc.id, ...doc.data() })\<close> for each document.\<close>

definition weeklyData_of :: "store \<Rightarrow> object list" where
  "weeklyData_of docs = map (\<lambda>doc. [''date'' \<mapsto> Str (fst doc)] ++ snd doc) docs"

definition date_string :: "object \<Rightarrow> string" where
  "date_string a = (case field a ''date'' of Str s \<Rightarrow> s | _ \<Rightarrow> [])"

text \<open>
  \<^verbatim>\<open>weeklyData.sort((a, b) => a.date.localeCompare(b.date))\<close>.  The sort is stable.  On
  date ids the locale order is the order of the characters.  The comparator is called once
  there are two entries, and a receiver \<^verbatim>\<open>a.date\<close> that is not a string raises.
\<close>

definition sort_by_date :: "object list \<Rightarrow> js_error + object list" where
  "sort_by_date xs =
     (if length xs \<le> 1 then Inr xs
      else if list_all (\<lambda>a. is_Str (field a ''date'')) xs then Inr (sort_key date_string xs)
      else Inl TypeError)"

datatype query_outcome = QueryOk | QueryFailed

text \<open>
  \<open>oneWeekAgoId\<close> is the string computed in lines 219-225 from the clock (six days before
  today); \<open>outcome\<close> is whether \<^verbatim>\<open>getDocs\<close> resolves or rejects.
\<close>

definition fetchWeeklySummary ::
  "string \<Rightarrow> query_outcome \<Rightarrow> store \<Rightarrow> app_state \<Rightarrow> app_state" where
  "fetchWeeklySummary oneWeekAgoId outcome s st =
     (if \<not> db st \<or> \<not> isAuthReady st then st
      else
        (let st1 = st\<lparr>loading := True\<rparr>;
             failed = st1\<lparr>error := Some ''Failed to load weekly report data.'',
                          loading := False\<rparr>
         in case outcome of
              QueryFailed \<Rightarrow> failed
            | QueryOk \<Rightarrow>
                (case sort_by_date (weeklyData_of (getDocs_orderBy_date_desc_limit 7 s)) of
                   Inl e \<Rightarrow> failed
                 | Inr weeklyData \<Rightarrow> st1\<lparr>weeklySummary := weeklyData, loading := False\<rparr>)))"

text \<open>The body of the \<^verbatim>\<open>forEach\<close> in \<open>weeklyTotals\<close> (lines 272-274).\<close>

definition add_count :: "object \<Rightarrow> object \<Rightarrow> question_type \<Rightarrow> object" where
  "add_count day totals t =
     (let count = js_or (field day (type_id t)) (Num 0);
          totals1 = totals(type_id t \<mapsto> js_add (js_or (field totals (type_id t)) (Num 0)) count)
      in totals1(''grandTotal'' \<mapsto> js_add (js_or (field totals1 ''grandTotal'') (Num 0)) count))"

definition weeklyTotals :: "object list \<Rightarrow> object" where
  "weeklyTotals summary =
     foldl (\<lambda>totals day. foldl (add_count day) totals QUESTION_TYPES)
       [''grandTotal'' \<mapsto> Num 0] summary"


section \<open>Export: \<open>handleExportCSV\<close>\<close>

definition reportData :: "object list \<Rightarrow> row list" where
  "reportData summary =
     map (\<lambda>day. foldl (\<lambda>r t. AList.update (type_name t)
                               (js_or (field day (type_id t)) (Num 0)) r)
                  [(''Date'', field day ''date'')] QUESTION_TYPES)
         summary"

definition totalsRow :: "object \<Rightarrow> row" where
  "totalsRow totals =
     foldl (\<lambda>r t. AList.update (type_name t) (js_or (field totals (type_id t)) (Num 0)) r)
       [(''Date'', Str ''TOTAL WEEKLY COUNT'')] QUESTION_TYPES"

record download =
  filename :: string
  mime :: string
  content :: string

text \<open>
  \<open>download_supported\<close> is the test \<^verbatim>\<open>link.download !== undefined\<close>; without it the
  handler only logs.
\<close>

definition handleExportCSV :: "bool \<Rightarrow> string \<Rightarrow> app_state \<Rightarrow> download option" where
  "handleExportCSV download_supported TODAY_DATE st =
     (let data = reportData (weeklySummary st) @ [totalsRow (weeklyTotals (weeklySummary st))];
          csvString = convertToCSV data
      in if download_supported
         then Some \<lparr>filename = ''ref_question_log_'' @ TODAY_DATE @ ''.csv'',
                    mime = ''text/csv;charset=utf-8;'',
                    content = csvString\<rparr>
         else None)"


section \<open>Example data\<close>

text \<open>A connected, authenticated session and a collection of three daily documents.\<close>

definition example_state :: app_state where
  "example_state =
     \<lparr>db = True, isAuthReady = True, userId = Str ''desk-1'', weeklySummary = [],
      loading = False, error = None\<rparr>"

definition example_store :: store where
  "example_store =
     [(''2024-01-01'', [''date'' \<mapsto> Str ''2024-01-01'', ''quick_fact'' \<mapsto> Num 2]),
      (''2024-01-03'', [''date'' \<mapsto> Str ''2024-01-03'', ''research'' \<mapsto> Num 5,
                        ''quick_fact'' \<mapsto> Num 1]),
      (''2024-01-02'', [''date'' \<mapsto> Str ''2024-01-02''])]"


section \<open>The CSV formatter\<close>

lemma replace_quotes_double: "replace_quotes s = double_each_quote s"
  by (induction s) (simp_all add: double_each_quote_def)

lemma undouble_replace_quotes: "undouble (replace_quotes s) = s"
proof (induction s)
  case Nil
  show ?case by simp
next
  case (Cons c s)
  show ?case
  proof (cases "c = CHR 0x22")
    case True
    with Cons show ?thesis by simp
  next
    case False
    with Cons show ?thesis by (cases "replace_quotes s") auto
  qed
qed

lemma get_prop_missing:
  "k \<notin> fst ` set r \<Longrightarrow> k \<notin> fst ` set object_prototype \<Longrightarrow> get_prop r k = Undefined"
proof -
  assume "k \<notin> fst ` set r" and "k \<notin> fst ` set object_prototype"
  then have "map_of r k = None" and "map_of object_prototype k = None"
    by (simp_all add: map_of_eq_None_iff)
  then show ?thesis by (simp add: get_prop_def)
qed

lemma map_result_map_Inr:
  "(\<And>x. x \<in> set xs \<Longrightarrow> f (h x) = Inr (g x)) \<Longrightarrow> map_result f (map h xs) = Inr (map g xs)"
  by (induction xs) simp_all

lemma any_get_prop_plain:
  "any_get_prop (map (\<lambda>(k, v). (k, Plain v)) r) k = Plain (get_prop r k)"
  by (simp add: any_get_prop_def get_prop_def map_of_map split: option.splits)

lemma any_csv_values_plain:
  "any_csv_values headers (plain_row r) = Inr (csv_values headers r)"
proof -
  have "map_result (\<lambda>header.
         case plain_row r of
           None \<Rightarrow> Inl TypeError
         | Some r \<Rightarrow>
             (case coerce_string (any_get_prop r header) of
                Inl e \<Rightarrow> Inl e
              | Inr s \<Rightarrow> Inr ([CHR 0x22] @ replace_quotes s @ [CHR 0x22])))
       (map (\<lambda>h. h) headers) =
     Inr (map (\<lambda>header. [CHR 0x22] @ replace_quotes (to_string (get_prop r header)) @ [CHR 0x22]) headers)"
    by (rule map_result_map_Inr) (simp add: plain_row_def any_get_prop_plain)
  then show ?thesis by (simp add: any_csv_values_def csv_values_def)
qed

lemma any_convertToCSV_plain:
  "any_convertToCSV (map plain_row data) = Inr (convertToCSV data)"
proof (cases data)
  case Nil
  then show ?thesis by (simp add: any_convertToCSV_def convertToCSV_def)
next
  case (Cons first rest)
  let ?f = "map (\<lambda>(k, v). (k, Plain v)) first"
  let ?F = "\<lambda>element. case any_csv_values (map fst first) element of
                        Inl e \<Rightarrow> Inl e
                      | Inr values \<Rightarrow> Inr (join '','' values)"
  have keys: "fst \<circ> (\<lambda>(k, v). (k, Plain v)) = fst"
    by (auto simp: fun_eq_iff)
  have d: "map plain_row data = Some ?f # map plain_row rest"
    by (simp add: Cons plain_row_def)
  have lines: "map_result ?F (map plain_row data) =
               Inr (map (\<lambda>r. join '','' (csv_values (map fst first) r)) data)"
    by (rule map_result_map_Inr) (simp add: any_csv_values_plain)
  have "any_convertToCSV (map plain_row data) = any_convertToCSV (Some ?f # map plain_row rest)"
    by (simp only: d)
  also have "\<dots> = (case map_result ?F (Some ?f # map plain_row rest) of
                      Inl e \<Rightarrow> Inl e
                    | Inr lines \<Rightarrow> Inr (join [CHR 0x0A] (join '','' (map fst first) # lines)))"
    by (simp add: any_convertToCSV_def Let_def keys del: map_result.simps join.simps)
  also have "\<dots> = (case map_result ?F (map plain_row data) of
                      Inl e \<Rightarrow> Inl e
                    | Inr lines \<Rightarrow> Inr (join [CHR 0x0A] (join '','' (map fst first) # lines)))"
    by (simp only: d)
  also have "\<dots> = Inr (join [CHR 0x0A] (join '','' (map fst first) #
                 map (\<lambda>r. join '','' (csv_values (map fst first) r)) data))"
    by (simp only: lines sum.case)
  also have "\<dots> = Inr (convertToCSV data)"
    by (simp add: Cons convertToCSV_def csvRows_def Let_def del: join.simps)
  finally show ?thesis .
qed

lemmas csv_eval =
  convertToCSV_def csvRows_def csv_values_def get_prop_def number_to_string_def digit_char_def

text \<open>
  C4, as the spec states it, fails: the header line is pushed as
  \<^verbatim>\<open>headers.join(',')\<close> (line 85), without quotes; only the cells of the data rows
  are wrapped in quotes.
\<close>

theorem convertToCSV_header_quoted_counterexample:
  \<open>convertToCSV [[(''a'', Num 1), (''b'', Num 2)]] \<noteq> ''"a","b"\<newline>"1","2"''\<close>
  by (simp add: csv_eval)

text \<open>
  C4 (amended): \<open>convertToCSV\<close> of the empty array is the empty string; of the single
  record \<open>{a: 1, b: 2}\<close> it is the line \<open>a,b\<close> followed by the line \<open>"1","2"\<close>; in
  general the first line is the keys of the first record joined by commas, unquoted, and
  every later line is the quoted cells of one record.
\<close>

theorem convertToCSV_header_unquoted:
  \<open>convertToCSV [] = '''' \<and>
   convertToCSV [[(''a'', Num 1), (''b'', Num 2)]] = ''a,b\<newline>"1","2"'' \<and>
   convertToCSV (first # rest) =
     join ''\<newline>'' (join '','' (map fst first) #
        map (\<lambda>r. join '','' (csv_values (map fst first) r)) (first # rest))\<close>
  by (simp add: csv_eval)

text \<open>
  C7: every cell of a data row is the string form of the value with each double quote
  doubled (as the spec words it, \<open>double_each_quote\<close>), wrapped in double quotes;
  collapsing the pairs gives the string back; the value \<open>he said "hi"\<close> is emitted as
  \<open>"he said ""hi"""\<close>.
\<close>

theorem csv_values_escape_quotes:
  \<open>csv_values headers r =
     map (\<lambda>h. ''"'' @ double_each_quote (to_string (get_prop r h)) @ ''"'') headers \<and>
   undouble (double_each_quote s) = s \<and>
   convertToCSV [[(''a'', Str ''he said "hi"'')]] = ''a\<newline>"he said ""hi"""''\<close>
proof (intro conjI)
  show \<open>csv_values headers r =
     map (\<lambda>h. ''"'' @ double_each_quote (to_string (get_prop r h)) @ ''"'') headers\<close>
    by (simp add: csv_values_def replace_quotes_double)
  show "undouble (double_each_quote s) = s"
    using undouble_replace_quotes [of s] by (simp add: replace_quotes_double)
  show \<open>convertToCSV [[(''a'', Str ''he said "hi"'')]] = ''a\<newline>"he said ""hi"""''\<close>
    by (simp add: csv_eval)
qed

text \<open>
  C10, as the spec states it, fails.  A record that lacks the header key
  \<^verbatim>\<open>constructor\<close> inherits that property, so line 90 reads a function and the cell is
  its source text, not \<open>undefined\<close>.  And the formatter is not total: a symbol as value
  raises at line 92, a \<^verbatim>\<open>null\<close> element at line 90.
\<close>

theorem convertToCSV_missing_key_counterexample:
  \<open>convertToCSV [[(''constructor'', Num 1)], []] =
     ''constructor\<newline>"1"\<newline>"function Object() { [native code] }"'' \<and>
   convertToCSV [[(''constructor'', Num 1)], []] \<noteq> ''constructor\<newline>"1"\<newline>"undefined"'' \<and>
   any_convertToCSV [Some [(''a'', Sym)]] = Inl TypeError \<and>
   any_convertToCSV [Some [(''a'', Plain (Num 1))], None] = Inl TypeError\<close>
  by (simp add: csv_eval object_prototype_def native_function_def any_convertToCSV_def
        any_csv_values_def any_get_prop_def)

text \<open>
  C10 (amended): on every array of records whose values have a string form, uniform or not,
  the formatter does not raise and returns \<open>convertToCSV\<close> of the array.  For the \<open>i\<close>-th
  record and the \<open>j\<close>-th key of the first record, when the record has no such key and the
  key is not the name of a property inherited from \<^verbatim>\<open>Object.prototype\<close>, the output
  line of the record is the join of its cells and the cell is the quoted string
  \<open>undefined\<close>.
\<close>

theorem convertToCSV_missing_key_undefined:
  assumes "i < length (first # rest)" and "j < length first"
    and "fst (first ! j) \<notin> fst ` set ((first # rest) ! i)"
    and "fst (first ! j) \<notin> fst ` set object_prototype"
  shows \<open>any_convertToCSV (map plain_row (first # rest)) = Inr (convertToCSV (first # rest)) \<and>
     convertToCSV (first # rest) = join ''\<newline>'' (csvRows first (first # rest)) \<and>
     csvRows first (first # rest) ! Suc i =
       join '','' (csv_values (map fst first) ((first # rest) ! i)) \<and>
     csv_values (map fst first) ((first # rest) ! i) ! j = ''"undefined"''\<close>
proof (intro conjI)
  show "any_convertToCSV (map plain_row (first # rest)) = Inr (convertToCSV (first # rest))"
    by (rule any_convertToCSV_plain)
  show \<open>convertToCSV (first # rest) = join ''\<newline>'' (csvRows first (first # rest))\<close>
    by (simp add: convertToCSV_def)
  show "csvRows first (first # rest) ! Suc i =
       join '','' (csv_values (map fst first) ((first # rest) ! i))"
    using assms(1) by (simp add: csvRows_def Let_def nth_Cons' del: join.simps)
  have "get_prop ((first # rest) ! i) (fst (first ! j)) = Undefined"
    using assms(3,4) by (rule get_prop_missing)
  then show \<open>csv_values (map fst first) ((first # rest) ! i) ! j = ''"undefined"''\<close>
    using assms(2) by (simp add: csv_values_def)
qed

theorem convertToCSV_missing_key_undefined_witness:
  \<open>(1::nat) < length [[(''a'', Num 1), (''b'', Num 2)], [(''a'', Num 3)]] \<and>
   (1::nat) < length [(''a'', Num 1), (''b'', Num 2)] \<and>
   ''b'' \<notin> fst ` set [(''a'', Num 3)] \<and>
   ''b'' \<notin> fst ` set object_prototype \<and>
   csv_values [''a'', ''b''] [(''a'', Num 3)] ! 1 = ''"undefined"'' \<and>
   any_convertToCSV (map plain_row [[(''a'', Num 1), (''b'', Num 2)], [(''a'', Num 3)]]) =
     Inr ''a,b\<newline>"1","2"\<newline>"3","undefined"''\<close>
proof -
  have p: "''b'' \<notin> fst ` set object_prototype"
    by (simp add: object_prototype_def)
  have h: "fst ([(''a'', Num 1), (''b'', Num 2)] ! 1) \<notin> fst ` set object_prototype"
    using p by simp
  note c = convertToCSV_missing_key_undefined [of 1 "[(''a'', Num 1), (''b'', Num 2)]" "[[(''a'', Num 3)]]" 1, OF _ _ _ h]
  have 0: "(1::nat) < length [[(''a'', Num 1), (''b'', Num 2)], [(''a'', Num 3)]]"
    "(1::nat) < length [(''a'', Num 1), (''b'', Num 2)]"
    "''b'' \<notin> fst ` set [(''a'', Num 3)]"
    by simp_all
  have 1: \<open>csv_values [''a'', ''b''] [(''a'', Num 3)] ! 1 = ''"undefined"''\<close>
    using c by simp
  have 2: "any_convertToCSV (map plain_row [[(''a'', Num 1), (''b'', Num 2)], [(''a'', Num 3)]]) =
        Inr (convertToCSV [[(''a'', Num 1), (''b'', Num 2)], [(''a'', Num 3)]])"
    using c by simp
  have 3: \<open>convertToCSV [[(''a'', Num 1), (''b'', Num 2)], [(''a'', Num 3)]] =
      ''a,b\<newline>"1","2"\<newline>"3","undefined"''\<close>
    by (simp add: csv_eval object_prototype_def)
  have 4: \<open>any_convertToCSV (map plain_row [[(''a'', Num 1), (''b'', Num 2)], [(''a'', Num 3)]]) =
     Inr ''a,b\<newline>"1","2"\<newline>"3","undefined"''\<close>
    using 2 3 by (simp only:)
  show ?thesis using 0 p 1 4 by (intro conjI)
qed


section \<open>Weekly totals\<close>

lemma numeric_or_missing_cases:
  "numeric_or_missing v \<longleftrightarrow> v = None \<or> (\<exists>n. v = Some (Num n))"
  by (auto simp: numeric_or_missing_def split: option.splits jsval.splits)

lemma js_or_zero:
  "numeric_or_missing (m k) \<Longrightarrow> js_or (field m k) (Num 0) = Num (count_field m k)"
  by (auto simp: numeric_or_missing_cases js_or_def field_def count_field_def)

lemma js_add_Num: "js_add (Num a) (Num b) = Num (a + b)"
  by (simp add: js_add_def)

lemma add_count_numeric:
  assumes "numeric_or_missing (day (type_id t))"
    and "numeric_or_missing (totals (type_id t))"
    and "numeric_or_missing (totals ''grandTotal'')"
    and "type_id t \<noteq> ''grandTotal''"
  shows "add_count day totals t =
           totals(type_id t \<mapsto> Num (count_field totals (type_id t) + count_field day (type_id t)),
                  ''grandTotal'' \<mapsto> Num (count_field totals ''grandTotal'' + count_field day (type_id t)))"
proof -
  let ?t1 = "totals(type_id t \<mapsto> Num (count_field totals (type_id t) + count_field day (type_id t)))"
  have g: "numeric_or_missing (?t1 ''grandTotal'')"
    using assms(3,4) by simp
  have c: "count_field ?t1 ''grandTotal'' = count_field totals ''grandTotal''"
    using assms(4) by (simp add: count_field_def)
  show ?thesis
    unfolding add_count_def Let_def
    by (simp only: js_or_zero [of day "type_id t", OF assms(1)]
          js_or_zero [of totals "type_id t", OF assms(2)] js_add_Num
          js_or_zero [of ?t1 "''grandTotal''", OF g] c)
qed


lemma foldl_add_count:
  assumes "numeric_totals totals"
    and "\<forall>t\<in>set ts. numeric_or_missing (day (type_id t)) \<and> type_id t \<noteq> ''grandTotal''"
  shows "numeric_totals (foldl (add_count day) totals ts) \<and>
         (\<forall>k. k \<noteq> ''grandTotal'' \<longrightarrow>
            count_field (foldl (add_count day) totals ts) k =
              count_field totals k + (\<Sum>t\<leftarrow>ts. if type_id t = k then count_field day k else 0)) \<and>
         count_field (foldl (add_count day) totals ts) ''grandTotal'' =
           count_field totals ''grandTotal'' + (\<Sum>t\<leftarrow>ts. count_field day (type_id t))"
  using assms
proof (induction ts arbitrary: totals)
  case Nil
  then show ?case by simp
next
  case (Cons t ts)
  let ?T = "add_count day totals t"
  have nt: "numeric_or_missing (day (type_id t))" and ng: "type_id t \<noteq> ''grandTotal''"
    using Cons.prems(2) by simp_all
  have eq: "?T = totals(type_id t \<mapsto> Num (count_field totals (type_id t) + count_field day (type_id t)),
                  ''grandTotal'' \<mapsto> Num (count_field totals ''grandTotal'' + count_field day (type_id t)))"
    using Cons.prems(1) nt ng by (intro add_count_numeric) (simp_all add: numeric_totals_def)
  have nT: "numeric_totals ?T"
    using Cons.prems(1) unfolding eq numeric_totals_def by (simp add: numeric_or_missing_def)
  have cT: "\<And>k. k \<noteq> ''grandTotal'' \<Longrightarrow>
       count_field ?T k = count_field totals k + (if type_id t = k then count_field day k else 0)"
    unfolding eq by (simp add: count_field_def)
  have gT: "count_field ?T ''grandTotal'' = count_field totals ''grandTotal'' + count_field day (type_id t)"
    unfolding eq by (simp add: count_field_def)
  have rest: "\<forall>t\<in>set ts. numeric_or_missing (day (type_id t)) \<and> type_id t \<noteq> ''grandTotal''"
    using Cons.prems(2) by simp
  from Cons.IH [OF nT rest] show ?case
    by (simp add: cT gT)
qed

lemma foldl_days:
  assumes "numeric_totals totals"
    and "\<forall>day\<in>set days. \<forall>t\<in>set ts. numeric_or_missing (day (type_id t))"
    and "\<forall>t\<in>set ts. type_id t \<noteq> ''grandTotal''"
  shows "numeric_totals (foldl (\<lambda>totals day. foldl (add_count day) totals ts) totals days) \<and>
         (\<forall>k. k \<noteq> ''grandTotal'' \<longrightarrow>
            count_field (foldl (\<lambda>totals day. foldl (add_count day) totals ts) totals days) k =
              count_field totals k +
              (\<Sum>day\<leftarrow>days. \<Sum>t\<leftarrow>ts. if type_id t = k then count_field day k else 0)) \<and>
         count_field (foldl (\<lambda>totals day. foldl (add_count day) totals ts) totals days) ''grandTotal'' =
           count_field totals ''grandTotal'' +
           (\<Sum>day\<leftarrow>days. \<Sum>t\<leftarrow>ts. count_field day (type_id t))"
  using assms
proof (induction days arbitrary: totals)
  case Nil
  then show ?case by simp
next
  case (Cons day days)
  let ?T = "foldl (add_count day) totals ts"
  have day: "\<forall>t\<in>set ts. numeric_or_missing (day (type_id t)) \<and> type_id t \<noteq> ''grandTotal''"
    using Cons.prems(2,3) by simp
  note step = foldl_add_count [OF Cons.prems(1) day]
  have rest: "\<forall>day\<in>set days. \<forall>t\<in>set ts. numeric_or_missing (day (type_id t))"
    using Cons.prems(2) by simp
  from Cons.IH [OF conjunct1 [OF step] rest Cons.prems(3)] step show ?case
    by simp
qed

lemma category_sum:
  "t \<in> set QUESTION_TYPES \<Longrightarrow>
   (\<Sum>u\<leftarrow>QUESTION_TYPES. if type_id u = type_id t then f (type_id t) else (0::int)) = f (type_id t)"
  by (auto simp: QUESTION_TYPES_def)

lemma category_not_grandTotal: "\<forall>t\<in>set QUESTION_TYPES. type_id t \<noteq> ''grandTotal''"
  by (simp add: QUESTION_TYPES_def)

lemma foldl_add_count_grandTotal:
  "totals ''grandTotal'' \<noteq> None \<Longrightarrow> foldl (add_count day) totals ts ''grandTotal'' \<noteq> None"
  by (induction ts arbitrary: totals) (simp_all add: add_count_def Let_def)

lemma foldl_days_grandTotal:
  "totals ''grandTotal'' \<noteq> None \<Longrightarrow>
   foldl (\<lambda>totals day. foldl (add_count day) totals ts) totals days ''grandTotal'' \<noteq> None"
proof (induction days arbitrary: totals)
  case Nil
  then show ?case by simp
next
  case (Cons day days)
  have "foldl (add_count day) totals ts ''grandTotal'' \<noteq> None"
    using Cons.prems by (rule foldl_add_count_grandTotal)
  from Cons.IH [of "foldl (add_count day) totals ts", OF this] show ?case by simp
qed

lemma weeklyTotals_grandTotal_defined: "weeklyTotals summary ''grandTotal'' \<noteq> None"
  unfolding weeklyTotals_def by (rule foldl_days_grandTotal) simp

lemma weeklyTotals_counts:
  assumes "\<forall>day\<in>set summary. \<forall>t\<in>set QUESTION_TYPES. numeric_or_missing (day (type_id t))"
  shows "numeric_totals (weeklyTotals summary)"
    and "t \<in> set QUESTION_TYPES \<Longrightarrow>
         count_field (weeklyTotals summary) (type_id t) = (\<Sum>day\<leftarrow>summary. count_field day (type_id t))"
    and "count_field (weeklyTotals summary) ''grandTotal'' =
         (\<Sum>day\<leftarrow>summary. \<Sum>t\<leftarrow>QUESTION_TYPES. count_field day (type_id t))"
proof -
  have init: "numeric_totals [''grandTotal'' \<mapsto> Num 0]"
    by (simp add: numeric_totals_def numeric_or_missing_def)
  note all = foldl_days [OF init assms category_not_grandTotal, folded weeklyTotals_def]
  show "numeric_totals (weeklyTotals summary)" using all by simp
  show "count_field (weeklyTotals summary) ''grandTotal'' =
         (\<Sum>day\<leftarrow>summary. \<Sum>t\<leftarrow>QUESTION_TYPES. count_field day (type_id t))"
    using all by (simp add: count_field_def)
  assume t: "t \<in> set QUESTION_TYPES"
  then have "type_id t \<noteq> ''grandTotal''" using category_not_grandTotal by simp
  with all have "count_field (weeklyTotals summary) (type_id t) =
      count_field [''grandTotal'' \<mapsto> Num 0] (type_id t) +
      (\<Sum>day\<leftarrow>summary. \<Sum>u\<leftarrow>QUESTION_TYPES. if type_id u = type_id t then count_field day (type_id t) else 0)"
    by blast
  also have "\<dots> = (\<Sum>day\<leftarrow>summary. count_field day (type_id t))"
    using \<open>type_id t \<noteq> ''grandTotal''\<close> category_sum [OF t, of "\<lambda>k. count_field _ k"]
    by (simp add: count_field_def category_sum [OF t, of "count_field _"])
  finally show "count_field (weeklyTotals summary) (type_id t) = (\<Sum>day\<leftarrow>summary. count_field day (type_id t))" .
qed

lemma sum_list_swap_categories:
  "(\<Sum>day\<leftarrow>summary. \<Sum>t\<leftarrow>QUESTION_TYPES. count_field day (type_id t)) =
   (\<Sum>t\<leftarrow>QUESTION_TYPES. \<Sum>day\<leftarrow>summary. count_field day (type_id t))"
  by (induction summary) (simp_all add: QUESTION_TYPES_def)

text \<open>
  C2: for a weekly sequence whose category fields are numbers or missing, each
  per-category total (stored in the totals object, and as displayed through \<open>|| 0\<close>) is the
  sum of that category's field over the documents, a missing field counting as 0, and the
  grand total is the sum of the per-category totals.
\<close>

theorem weeklyTotals_grand_total:
  assumes "\<forall>day\<in>set summary. \<forall>t\<in>set QUESTION_TYPES. numeric_or_missing (day (type_id t))"
  shows "(\<forall>t\<in>set QUESTION_TYPES.
            count_field (weeklyTotals summary) (type_id t) =
              (\<Sum>day\<leftarrow>summary. count_field day (type_id t)) \<and>
            js_or (field (weeklyTotals summary) (type_id t)) (Num 0) =
              Num (\<Sum>day\<leftarrow>summary. count_field day (type_id t))) \<and>
         field (weeklyTotals summary) ''grandTotal'' =
           Num (\<Sum>t\<leftarrow>QUESTION_TYPES. count_field (weeklyTotals summary) (type_id t))"
proof (intro conjI ballI)
  fix t assume t: "t \<in> set QUESTION_TYPES"
  show c: "count_field (weeklyTotals summary) (type_id t) =
              (\<Sum>day\<leftarrow>summary. count_field day (type_id t))"
    using weeklyTotals_counts(2) [OF assms t] .
  have "numeric_or_missing (weeklyTotals summary (type_id t))"
    using weeklyTotals_counts(1) [OF assms] by (simp add: numeric_totals_def)
  then show "js_or (field (weeklyTotals summary) (type_id t)) (Num 0) =
              Num (\<Sum>day\<leftarrow>summary. count_field day (type_id t))"
    using c by (simp add: js_or_zero)
next
  have per: "(\<Sum>t\<leftarrow>QUESTION_TYPES. count_field (weeklyTotals summary) (type_id t)) =
             (\<Sum>t\<leftarrow>QUESTION_TYPES. \<Sum>day\<leftarrow>summary. count_field day (type_id t))"
    using weeklyTotals_counts(2) [OF assms] by (intro arg_cong [where f = sum_list] map_cong) simp_all
  have g: "count_field (weeklyTotals summary) ''grandTotal'' =
           (\<Sum>t\<leftarrow>QUESTION_TYPES. count_field (weeklyTotals summary) (type_id t))"
    using weeklyTotals_counts(3) [OF assms] per sum_list_swap_categories [of summary] by simp
  have "\<exists>n. weeklyTotals summary ''grandTotal'' = Some (Num n)"
  proof -
    have "numeric_or_missing (weeklyTotals summary ''grandTotal'')"
      using weeklyTotals_counts(1) [OF assms] by (simp add: numeric_totals_def)
    then show ?thesis
      using weeklyTotals_grandTotal_defined [of summary] by (simp add: numeric_or_missing_cases)
  qed
  then show "field (weeklyTotals summary) ''grandTotal'' =
           Num (\<Sum>t\<leftarrow>QUESTION_TYPES. count_field (weeklyTotals summary) (type_id t))"
    using g by (auto simp: field_def count_field_def)
qed

theorem weeklyTotals_grand_total_witness:
  "list_all (\<lambda>day. list_all (\<lambda>t. numeric_or_missing (day (type_id t))) QUESTION_TYPES)
     [[''date'' \<mapsto> Str ''2024-01-01'', ''quick_fact'' \<mapsto> Num 2],
      [''date'' \<mapsto> Str ''2024-01-02'', ''research'' \<mapsto> Num 5, ''quick_fact'' \<mapsto> Num 1]] \<and>
   field (weeklyTotals [[''date'' \<mapsto> Str ''2024-01-01'', ''quick_fact'' \<mapsto> Num 2],
                 [''date'' \<mapsto> Str ''2024-01-02'', ''research'' \<mapsto> Num 5, ''quick_fact'' \<mapsto> Num 1]])
     ''grandTotal'' = Num 8"
proof -
  let ?S = "[[''date'' \<mapsto> Str ''2024-01-01'', ''quick_fact'' \<mapsto> Num 2],
             [''date'' \<mapsto> Str ''2024-01-02'', ''research'' \<mapsto> Num 5, ''quick_fact'' \<mapsto> Num 1]]"
  have h: "\<forall>day\<in>set ?S. \<forall>t\<in>set QUESTION_TYPES. numeric_or_missing (day (type_id t))"
    by (simp add: QUESTION_TYPES_def numeric_or_missing_def)
  have cats: "\<forall>t\<in>set QUESTION_TYPES.
      count_field (weeklyTotals ?S) (type_id t) = (\<Sum>day\<leftarrow>?S. count_field day (type_id t))"
    using weeklyTotals_grand_total [OF h] by blast
  have "field (weeklyTotals ?S) ''grandTotal'' =
          Num (\<Sum>t\<leftarrow>QUESTION_TYPES. count_field (weeklyTotals ?S) (type_id t))"
    using weeklyTotals_grand_total [OF h] by blast
  also have "\<dots> = Num (\<Sum>t\<leftarrow>QUESTION_TYPES. \<Sum>day\<leftarrow>?S. count_field day (type_id t))"
    using cats by (simp add: QUESTION_TYPES_def)
  also have "\<dots> = Num 8"
    by (simp add: QUESTION_TYPES_def count_field_def)
  finally show ?thesis using h by (simp add: list_all_iff)
qed


section \<open>The weekly fetch\<close>

lemma sort_key_unique:
  assumes "distinct (map f xs)" and "sorted (map f ys)" and "distinct ys" and "set ys = set xs"
  shows "sort_key f xs = ys"
proof (rule map_sorted_distinct_set_unique [where f = f])
  have inj: "inj_on f (set xs)" using assms(1) by (simp add: distinct_map)
  show "inj_on f (set (sort_key f xs) \<union> set ys)" using inj assms(4) by simp
  show "sorted (map f (sort_key f xs))" by (rule sorted_sort_key)
  show "distinct (map f (sort_key f xs))" using assms(1) by (simp add: distinct_map)
  show "sorted (map f ys)" by (rule assms(2))
  show "distinct (map f ys)" using inj assms(3,4) by (simp add: distinct_map)
  show "set (sort_key f xs) = set ys" using assms(4) by simp
qed

lemma daily_store_date:
  "daily_store s \<Longrightarrow> doc \<in> set s \<Longrightarrow> snd doc ''date'' = Some (Str (fst doc))"
  by (simp add: daily_store_def daily_document_def list_all_iff)

lemma daily_store_distinct: "daily_store s \<Longrightarrow> distinct (map fst s)"
  by (simp add: daily_store_def)

lemma daily_date_string:
  "daily_store s \<Longrightarrow> doc \<in> set s \<Longrightarrow> date_string (snd doc) = fst doc"
  by (simp add: date_string_def field_def daily_store_date)

lemma daily_weeklyData:
  assumes "daily_store s" and "set docs \<subseteq> set s"
  shows "weeklyData_of docs = map snd docs"
proof -
  have "[''date'' \<mapsto> Str (fst doc)] ++ snd doc = snd doc" if "doc \<in> set docs" for doc
  proof -
    have "snd doc ''date'' = Some (Str (fst doc))"
      using assms that by (auto intro: daily_store_date)
    then show ?thesis
      by (auto simp: map_add_def fun_eq_iff split: option.splits)
  qed
  then show ?thesis by (simp add: weeklyData_of_def)
qed

lemma daily_query:
  assumes "daily_store s"
  shows "getDocs_orderBy_date_desc_limit n s = rev (drop (length s - n) (sort_key fst s))"
proof -
  let ?K = "\<lambda>doc. (firestore_key (field (snd doc) ''date''), fst doc)"
  have all: "filter (\<lambda>doc. snd doc ''date'' \<noteq> None) s = s"
    using daily_store_date [OF assms] by (simp add: filter_id_conv)
  have K: "?K doc = ((4, 0, fst doc), fst doc)" if "doc \<in> set s" for doc
    using daily_store_date [OF assms that] by (simp add: field_def)
  have "sorted_wrt (\<lambda>a b. ?K a \<le> ?K b) (sort_key ?K s)"
    using sorted_sort_key [of ?K s] by (simp add: sorted_map)
  then have "sorted_wrt (\<lambda>a b. fst a \<le> fst b) (sort_key ?K s)"
  proof (rule sorted_wrt_mono_rel [rotated])
    fix a b assume "a \<in> set (sort_key ?K s)" "b \<in> set (sort_key ?K s)" "?K a \<le> ?K b"
    then show "fst a \<le> fst b" by (auto simp: K less_eq_prod_def)
  qed
  then have sorted: "sorted (map fst (sort_key ?K s))" by (simp add: sorted_map)
  have d: "distinct s" using daily_store_distinct [OF assms] by (simp add: distinct_map)
  have "sort_key fst s = sort_key ?K s"
    using daily_store_distinct [OF assms] sorted d by (intro sort_key_unique) simp_all
  then show ?thesis
    unfolding getDocs_orderBy_date_desc_limit_def all by (simp add: take_rev)
qed

lemma sort_by_date_daily:
  assumes "daily_store s" and "sorted (map fst xs)" and "distinct xs" and "set xs \<subseteq> set s"
  shows "sort_by_date (map snd (rev xs)) = Inr (map snd xs)"
proof -
  have ds: "date_string (snd doc) = fst doc" if "doc \<in> set xs" for doc
    using assms(1,4) that by (auto intro: daily_date_string)
  have keys: "map date_string (map snd xs) = map fst xs"
    using ds by simp
  have dfst: "distinct (map fst xs)"
    using daily_store_distinct [OF assms(1)] assms(3,4)
    by (auto simp: distinct_map intro: inj_on_subset)
  have inj_snd: "inj_on snd (set xs)"
  proof (rule inj_onI)
    fix a b assume ab: "a \<in> set xs" "b \<in> set xs" "snd a = snd b"
    then have "fst a = fst b" using ds [of a] ds [of b] by simp
    with ab show "a = b" by (simp add: prod_eq_iff)
  qed
  have strs: "list_all (\<lambda>a. is_Str (field a ''date'')) (map snd (rev xs))"
    using assms(1,4) by (auto simp: list_all_iff field_def dest!: daily_store_date [OF assms(1)] subsetD)
  have sorted: "sort_key date_string (map snd (rev xs)) = map snd xs"
  proof (rule sort_key_unique)
    have "map date_string (map snd (rev xs)) = rev (map fst xs)"
      by (simp only: rev_map [symmetric] keys)
    then show "distinct (map date_string (map snd (rev xs)))"
      using dfst by simp
    show "sorted (map date_string (map snd xs))" using assms(2) by (simp only: keys)
    show "distinct (map snd xs)" using assms(3) inj_snd by (simp add: distinct_map)
    show "set (map snd xs) = set (map snd (rev xs))" by simp
  qed
  show ?thesis
  proof (cases "length xs \<le> 1")
    case True
    then have "rev xs = xs" by (cases xs) auto
    with True show ?thesis by (simp add: sort_by_date_def)
  next
    case False
    then show ?thesis using strs sorted by (simp add: sort_by_date_def)
  qed
qed

lemma fetch_daily_store:
  assumes "daily_store s" and "db st" and "isAuthReady st"
  shows "fetchWeeklySummary w QueryOk s st =
           st\<lparr>weeklySummary := map snd (drop (length s - 7) (sort_key fst s)), loading := False\<rparr>"
proof -
  let ?X = "drop (length s - 7) (sort_key fst s)"
  have sub: "set ?X \<subseteq> set s" using set_drop_subset [of "length s - 7" "sort_key fst s"] by simp
  have q: "getDocs_orderBy_date_desc_limit 7 s = rev ?X" by (rule daily_query [OF assms(1)])
  have wd: "weeklyData_of (rev ?X) = map snd (rev ?X)"
    using sub by (intro daily_weeklyData [OF assms(1)]) simp
  have "sorted (map fst (sort_key fst s))" by (rule sorted_sort_key)
  then have s1: "sorted (map fst ?X)" by (simp add: sorted_map sorted_wrt_drop)
  have "distinct s" using daily_store_distinct [OF assms(1)] by (simp add: distinct_map)
  then have s2: "distinct ?X" by simp
  have "sort_by_date (map snd (rev ?X)) = Inr (map snd ?X)"
    using assms(1) s1 s2 sub by (rule sort_by_date_daily)
  then show ?thesis
    using assms(2,3) by (simp add: fetchWeeklySummary_def q wd)
qed

lemma example_store_daily: "daily_store example_store"
  by (simp add: example_store_def daily_store_def daily_document_def is_date_id_def is_digit_def)

text \<open>
  C3: on a collection of fewer than seven daily documents the weekly fetch stores exactly
  the documents that exist (the same multiset, no entry added), in ascending order of
  their date strings.
\<close>

theorem fetchWeeklySummary_fewer_than_seven:
  assumes "daily_store s" and "length s < 7" and "db st" and "isAuthReady st"
  shows "weeklySummary (fetchWeeklySummary w QueryOk s st) = map snd (sort_key fst s) \<and>
         mset (weeklySummary (fetchWeeklySummary w QueryOk s st)) = mset (map snd s) \<and>
         sorted (map date_string (weeklySummary (fetchWeeklySummary w QueryOk s st))) \<and>
         length (weeklySummary (fetchWeeklySummary w QueryOk s st)) = length s"
proof -
  have ws: "weeklySummary (fetchWeeklySummary w QueryOk s st) = map snd (sort_key fst s)"
    using assms(2) by (simp add: fetch_daily_store [OF assms(1,3,4)])
  have "map date_string (map snd (sort_key fst s)) = map fst (sort_key fst s)"
    using daily_date_string [OF assms(1)] by simp
  then have "sorted (map date_string (map snd (sort_key fst s)))"
    using sorted_sort_key [of fst s] by (simp only:)
  moreover have "mset (map snd (sort_key fst s)) = mset (map snd s)"
    by simp
  ultimately show ?thesis by (simp add: ws)
qed

theorem fetchWeeklySummary_fewer_than_seven_witness:
  "daily_store example_store \<and> length example_store < 7 \<and>
   db example_state \<and> isAuthReady example_state \<and>
   map date_string (weeklySummary (fetchWeeklySummary ''2024-01-04'' QueryOk example_store example_state)) =
     [''2024-01-01'', ''2024-01-02'', ''2024-01-03''] \<and>
   length (weeklySummary (fetchWeeklySummary ''2024-01-04'' QueryOk example_store example_state)) = 3"
proof -
  have a: "length example_store < 7" "db example_state" "isAuthReady example_state"
    by (simp_all add: example_store_def example_state_def)
  have "weeklySummary (fetchWeeklySummary ''2024-01-04'' QueryOk example_store example_state) =
        map snd (sort_key fst example_store)"
    using fetchWeeklySummary_fewer_than_seven [OF example_store_daily a, of "''2024-01-04''"] by blast
  then show ?thesis using example_store_daily a
    by (simp add: example_store_def date_string_def field_def)
qed

text \<open>
  C9: the date string computed for six days before today has no influence on the result of
  the fetch.  On a collection of daily documents the summary is the (up to) seven documents
  with the greatest dates of the whole collection, in ascending order; in a collection of at
  most seven documents every document is in the summary, also one dated before the
  computed string.
\<close>

theorem fetchWeeklySummary_ignores_oneWeekAgo:
  assumes "daily_store s" and "db st" and "isAuthReady st"
  shows "fetchWeeklySummary w outcome s st = fetchWeeklySummary w' outcome s st \<and>
         weeklySummary (fetchWeeklySummary w QueryOk s st) =
           map snd (drop (length s - 7) (sort_key fst s)) \<and>
         (length s \<le> 7 \<longrightarrow>
            (\<forall>doc\<in>set s. fst doc < w \<longrightarrow>
               snd doc \<in> set (weeklySummary (fetchWeeklySummary w QueryOk s st))))"
proof (intro conjI impI ballI)
  show "fetchWeeklySummary w outcome s st = fetchWeeklySummary w' outcome s st"
    by (simp add: fetchWeeklySummary_def)
  show ws: "weeklySummary (fetchWeeklySummary w QueryOk s st) =
           map snd (drop (length s - 7) (sort_key fst s))"
    by (simp add: fetch_daily_store [OF assms])
  fix doc assume "length s \<le> 7" "doc \<in> set s"
  then show "snd doc \<in> set (weeklySummary (fetchWeeklySummary w QueryOk s st))"
    by (simp add: ws)
qed

theorem fetchWeeklySummary_ignores_oneWeekAgo_witness:
  "daily_store [(''1999-12-31'', [''date'' \<mapsto> Str ''1999-12-31'', ''research'' \<mapsto> Num 4]),
                (''2024-06-10'', [''date'' \<mapsto> Str ''2024-06-10''])] \<and>
   ''1999-12-31'' < ''2024-06-04'' \<and>
   map date_string (weeklySummary (fetchWeeklySummary ''2024-06-04'' QueryOk
      [(''1999-12-31'', [''date'' \<mapsto> Str ''1999-12-31'', ''research'' \<mapsto> Num 4]),
       (''2024-06-10'', [''date'' \<mapsto> Str ''2024-06-10''])] example_state)) =
     [''1999-12-31'', ''2024-06-10'']"
proof -
  let ?s = "[(''1999-12-31'', [''date'' \<mapsto> Str ''1999-12-31'', ''research'' \<mapsto> Num 4]),
             (''2024-06-10'', [''date'' \<mapsto> Str ''2024-06-10''])]"
  have d: "daily_store ?s"
    by (simp add: daily_store_def daily_document_def is_date_id_def is_digit_def)
  have a: "db example_state" "isAuthReady example_state"
    by (simp_all add: example_state_def)
  have "weeklySummary (fetchWeeklySummary ''2024-06-04'' QueryOk ?s example_state) =
          map snd (drop (length ?s - 7) (sort_key fst ?s))"
    using fetchWeeklySummary_ignores_oneWeekAgo [OF d a] by blast
  then show ?thesis using d by (simp add: date_string_def field_def)
qed

text \<open>
  C6: when the weekly query is rejected (or sorting the result raises), the handler sets
  the error message and the loading flag and nothing else, so the summary shown before is
  kept; the error does not stop counting: \<open>handleCount\<close> acts on the store as before.
\<close>

theorem fetchWeeklySummary_failure_keeps_summary:
  assumes "db st" and "isAuthReady st"
  shows "fetchWeeklySummary w QueryFailed s st =
           st\<lparr>error := Some ''Failed to load weekly report data.'', loading := False\<rparr> \<and>
         weeklySummary (fetchWeeklySummary w QueryFailed s st) = weeklySummary st \<and>
         (sort_by_date (weeklyData_of (getDocs_orderBy_date_desc_limit 7 s)) = Inl e \<longrightarrow>
            fetchWeeklySummary w QueryOk s st = fetchWeeklySummary w QueryFailed s st) \<and>
         snd (handleCount outcome now today typeId (fetchWeeklySummary w QueryFailed s st, s)) =
           snd (handleCount outcome now today typeId (st, s))"
  using assms by (simp add: fetchWeeklySummary_def handleCount_def split: tx_outcome.splits)

theorem fetchWeeklySummary_failure_keeps_summary_witness:
  "db (example_state\<lparr>weeklySummary := map snd example_store\<rparr>) \<and>
   isAuthReady (example_state\<lparr>weeklySummary := map snd example_store\<rparr>) \<and>
   weeklySummary (fetchWeeklySummary ''2024-01-04'' QueryFailed example_store
      (example_state\<lparr>weeklySummary := map snd example_store\<rparr>)) = map snd example_store \<and>
   error (fetchWeeklySummary ''2024-01-04'' QueryFailed example_store
      (example_state\<lparr>weeklySummary := map snd example_store\<rparr>)) =
     Some ''Failed to load weekly report data.'' \<and>
   sort_by_date (weeklyData_of (getDocs_orderBy_date_desc_limit 7
      [(''a'', [''date'' \<mapsto> Num 1]), (''b'', [''date'' \<mapsto> Num 2])])) = Inl TypeError \<and>
   weeklySummary (fetchWeeklySummary ''2024-01-04'' QueryOk
      [(''a'', [''date'' \<mapsto> Num 1]), (''b'', [''date'' \<mapsto> Num 2])]
      (example_state\<lparr>weeklySummary := map snd example_store\<rparr>)) = map snd example_store \<and>
   error (fetchWeeklySummary ''2024-01-04'' QueryOk
      [(''a'', [''date'' \<mapsto> Num 1]), (''b'', [''date'' \<mapsto> Num 2])]
      (example_state\<lparr>weeklySummary := map snd example_store\<rparr>)) =
     Some ''Failed to load weekly report data.''"
proof -
  let ?st = "example_state\<lparr>weeklySummary := map snd example_store\<rparr>"
  let ?bad = "[(''a'', [''date'' \<mapsto> Num 1]), (''b'', [''date'' \<mapsto> Num 2])]"
  have a: "db ?st" "isAuthReady ?st" by (simp_all add: example_state_def)
  have t: "sort_by_date (weeklyData_of (getDocs_orderBy_date_desc_limit 7 ?bad)) = Inl TypeError"
    by (simp add: sort_by_date_def weeklyData_of_def getDocs_orderBy_date_desc_limit_def field_def)
  note f = fetchWeeklySummary_failure_keeps_summary [OF a, where w = "''2024-01-04''"]
  have 1: "fetchWeeklySummary ''2024-01-04'' QueryFailed example_store ?st =
          ?st\<lparr>error := Some ''Failed to load weekly report data.'', loading := False\<rparr>"
    using f [where s = example_store] by (rule conjunct1)
  have 2: "fetchWeeklySummary ''2024-01-04'' QueryFailed ?bad ?st =
          ?st\<lparr>error := Some ''Failed to load weekly report data.'', loading := False\<rparr>"
    using f [where s = ?bad] by (rule conjunct1)
  have 3: "fetchWeeklySummary ''2024-01-04'' QueryOk ?bad ?st =
           fetchWeeklySummary ''2024-01-04'' QueryFailed ?bad ?st"
    using f [where s = ?bad and e = TypeError] t by blast
  show ?thesis using a t by (simp add: 1 2 3)
qed

text \<open>
  C5: what the code does.  A weekly fetch that succeeds stores the new summary and leaves
  the error message as it was; only a committed count resets it to \<^verbatim>\<open>null\<close>
  (line 206).  \<open>handleCount\<close> does not read the error, so an error never stops counting.
\<close>

theorem fetchWeeklySummary_success_keeps_error:
  assumes "daily_store s" and "db st" and "isAuthReady st"
  shows "error (fetchWeeklySummary w QueryOk s st) = error st \<and>
         weeklySummary (fetchWeeklySummary w QueryOk s st) =
           map snd (drop (length s - 7) (sort_key fst s)) \<and>
         error (fst (handleCount Committed now today typeId (st, s))) = None \<and>
         snd (handleCount outcome now today typeId (st\<lparr>error := e\<rparr>, s)) =
           snd (handleCount outcome now today typeId (st, s))"
  using assms by (simp add: fetch_daily_store handleCount_def split: tx_outcome.splits)

theorem fetchWeeklySummary_success_keeps_error_witness:
  "daily_store example_store \<and>
   error (fetchWeeklySummary ''2024-01-04'' QueryOk example_store
            (fetchWeeklySummary ''2024-01-04'' QueryFailed example_store example_state)) =
     Some ''Failed to load weekly report data.''"
proof -
  let ?st = "fetchWeeklySummary ''2024-01-04'' QueryFailed example_store example_state"
  have a: "db ?st" "isAuthReady ?st" by (simp_all add: example_state_def fetchWeeklySummary_def)
  have "error (fetchWeeklySummary ''2024-01-04'' QueryOk example_store ?st) = error ?st"
    using fetchWeeklySummary_success_keeps_error [OF example_store_daily a] by blast
  then show ?thesis using example_store_daily
    by (simp add: example_state_def fetchWeeklySummary_def)
qed


section \<open>Counting\<close>

lemma initialData_category:
  "t \<in> set QUESTION_TYPES \<Longrightarrow> initialData (type_id t) = Some (Num 0)"
  by (auto simp: initialData_def QUESTION_TYPES_def)

lemma category_not_metadata:
  "t \<in> set QUESTION_TYPES \<Longrightarrow>
   type_id t \<noteq> ''createdAt'' \<and> type_id t \<noteq> ''lastUpdatedBy'' \<and>
   type_id t \<noteq> ''updatedAt'' \<and> type_id t \<noteq> ''date''"
  by (auto simp: QUESTION_TYPES_def)

text \<open>
  C1: for a category id of the registry, with the store connected and the transaction
  committed.  When no document exists for the date, the document is created with every
  category at 0 except the counted one at 1, with the creation time, the actor and the
  date.  When it exists, the counted field is incremented by the store (by exactly 1 when
  it holds a number or is missing), the update time and actor are written and every other
  field, so every other category, is unchanged.  Documents of other dates are untouched.
  The commit is one transition of the store, which is how \<^verbatim>\<open>runTransaction\<close>
  presents it.
\<close>

theorem handleCount_creates_or_increments:
  assumes "typeId \<in> type_id ` set QUESTION_TYPES" and "db st"
  shows "(case map_of s today of
            None \<Rightarrow>
              (\<exists>d'. map_of (snd (handleCount Committed now today typeId (st, s))) today = Some d' \<and>
                 (\<forall>t\<in>set QUESTION_TYPES.
                    d' (type_id t) = Some (Num (if type_id t = typeId then 1 else 0))) \<and>
                 d' ''createdAt'' = Some now \<and>
                 d' ''lastUpdatedBy'' = Some (userId st) \<and>
                 d' ''date'' = Some (Str today))
          | Some d \<Rightarrow>
              (\<exists>d'. map_of (snd (handleCount Committed now today typeId (st, s))) today = Some d' \<and>
                 d' typeId = Some (firestore_increment 1 (d typeId)) \<and>
                 (numeric_or_missing (d typeId) \<longrightarrow>
                    d' typeId = Some (Num (count_field d typeId + 1))) \<and>
                 (\<forall>t\<in>set QUESTION_TYPES. type_id t \<noteq> typeId \<longrightarrow> d' (type_id t) = d (type_id t)) \<and>
                 (\<forall>k. k \<notin> {typeId, ''lastUpdatedBy'', ''updatedAt''} \<longrightarrow> d' k = d k) \<and>
                 d' ''updatedAt'' = Some now \<and>
                 d' ''lastUpdatedBy'' = Some (userId st))) \<and>
         (\<forall>k. k \<noteq> today \<longrightarrow>
            map_of (snd (handleCount Committed now today typeId (st, s))) k = map_of s k)"
proof -
  obtain u where u: "u \<in> set QUESTION_TYPES" "typeId = type_id u"
    using assms(1) by auto
  note meta = category_not_metadata
  have tid: "typeId \<noteq> ''createdAt''" "typeId \<noteq> ''lastUpdatedBy''"
    "typeId \<noteq> ''updatedAt''" "typeId \<noteq> ''date''"
    using meta [OF u(1)] u(2) by simp_all
  have s': "snd (handleCount Committed now today typeId (st, s)) =
              transaction_body now (userId st) today typeId s"
    using assms(2) by (simp add: handleCount_def)
  have other: "\<forall>k. k \<noteq> today \<longrightarrow>
      map_of (transaction_body now (userId st) today typeId s) k = map_of s k"
    by (simp add: transaction_body_def AList.update_conv' split: option.splits)
  show ?thesis
  proof (cases "map_of s today")
    case None
    then show ?thesis
      using other tid meta
      by (simp add: s' transaction_body_def AList.update_conv' initialData_category)
  next
    case (Some d)
    have inc: "numeric_or_missing (d typeId) \<Longrightarrow>
        firestore_increment 1 (d typeId) = Num (count_field d typeId + 1)"
      by (auto simp: numeric_or_missing_cases firestore_increment_def count_field_def)
    from Some show ?thesis
      using other tid meta inc
      by (simp add: s' transaction_body_def AList.update_conv')
  qed
qed

theorem handleCount_creates_or_increments_witness:
  "''research'' \<in> type_id ` set QUESTION_TYPES \<and> db example_state \<and>
   map_of example_store ''2024-01-04'' = None \<and>
   map (field (the (map_of (snd (handleCount Committed (Obj ''t1'') ''2024-01-04'' ''research''
            (example_state, example_store))) ''2024-01-04'')))
       [''directional'', ''quick_fact'', ''procedural'', ''research'', ''technology'',
        ''createdAt'', ''lastUpdatedBy'', ''date''] =
     [Num 0, Num 0, Num 0, Num 1, Num 0, Obj ''t1'', Str ''desk-1'', Str ''2024-01-04''] \<and>
   map (field (the (map_of (snd (handleCount Committed (Obj ''t2'') ''2024-01-03'' ''research''
            (example_state, example_store))) ''2024-01-03'')))
       [''directional'', ''quick_fact'', ''research'', ''updatedAt'', ''lastUpdatedBy'', ''date''] =
     [Undefined, Num 1, Num 6, Obj ''t2'', Str ''desk-1'', Str ''2024-01-03'']"
proof -
  let ?d = "[''date'' \<mapsto> Str ''2024-01-03'', ''research'' \<mapsto> Num 5, ''quick_fact'' \<mapsto> Num 1]"
  let ?s1 = "snd (handleCount Committed (Obj ''t1'') ''2024-01-04'' ''research''
                (example_state, example_store))"
  let ?s2 = "snd (handleCount Committed (Obj ''t2'') ''2024-01-03'' ''research''
                (example_state, example_store))"
  have a: "''research'' \<in> type_id ` set QUESTION_TYPES" "db example_state"
    by (simp_all add: QUESTION_TYPES_def example_state_def)
  have n: "map_of example_store ''2024-01-04'' = None"
    by (simp add: example_store_def)
  have e: "map_of example_store ''2024-01-03'' = Some ?d"
    by (simp add: example_store_def)
  have u: "userId example_state = Str ''desk-1''"
    by (simp add: example_state_def)
  note c1 = handleCount_creates_or_increments
    [OF a, where s = example_store and today = "''2024-01-04''" and now = "Obj ''t1''"]
  note c2 = handleCount_creates_or_increments
    [OF a, where s = example_store and today = "''2024-01-03''" and now = "Obj ''t2''"]
  from c1 [unfolded n u option.case] have
    "\<exists>d'. map_of ?s1 ''2024-01-04'' = Some d' \<and>
       (\<forall>t\<in>set QUESTION_TYPES. d' (type_id t) = Some (Num (if type_id t = ''research'' then 1 else 0))) \<and>
       d' ''createdAt'' = Some (Obj ''t1'') \<and> d' ''lastUpdatedBy'' = Some (Str ''desk-1'') \<and>
       d' ''date'' = Some (Str ''2024-01-04'')"
    by (rule conjunct1)
  then obtain d1 where dd1: "map_of ?s1 ''2024-01-04'' = Some d1 \<and>
       (\<forall>t\<in>set QUESTION_TYPES. d1 (type_id t) = Some (Num (if type_id t = ''research'' then 1 else 0))) \<and>
       d1 ''createdAt'' = Some (Obj ''t1'') \<and> d1 ''lastUpdatedBy'' = Some (Str ''desk-1'') \<and>
       d1 ''date'' = Some (Str ''2024-01-04'')" ..
  note d1 = dd1 [THEN conjunct1] dd1 [THEN conjunct2, THEN conjunct1]
    dd1 [THEN conjunct2, THEN conjunct2, THEN conjunct1]
    dd1 [THEN conjunct2, THEN conjunct2, THEN conjunct2, THEN conjunct1]
    dd1 [THEN conjunct2, THEN conjunct2, THEN conjunct2, THEN conjunct2]
  from c2 [unfolded e u option.case] have
    "\<exists>d'. map_of ?s2 ''2024-01-03'' = Some d' \<and>
       d' ''research'' = Some (firestore_increment 1 (?d ''research'')) \<and>
       (numeric_or_missing (?d ''research'') \<longrightarrow>
          d' ''research'' = Some (Num (count_field ?d ''research'' + 1))) \<and>
       (\<forall>t\<in>set QUESTION_TYPES. type_id t \<noteq> ''research'' \<longrightarrow> d' (type_id t) = ?d (type_id t)) \<and>
       (\<forall>k. k \<notin> {''research'', ''lastUpdatedBy'', ''updatedAt''} \<longrightarrow> d' k = ?d k) \<and>
       d' ''updatedAt'' = Some (Obj ''t2'') \<and> d' ''lastUpdatedBy'' = Some (Str ''desk-1'')"
    by (rule conjunct1)
  then obtain d2 where dd2: "map_of ?s2 ''2024-01-03'' = Some d2 \<and>
       d2 ''research'' = Some (firestore_increment 1 (?d ''research'')) \<and>
       (numeric_or_missing (?d ''research'') \<longrightarrow>
          d2 ''research'' = Some (Num (count_field ?d ''research'' + 1))) \<and>
       (\<forall>t\<in>set QUESTION_TYPES. type_id t \<noteq> ''research'' \<longrightarrow> d2 (type_id t) = ?d (type_id t)) \<and>
       (\<forall>k. k \<notin> {''research'', ''lastUpdatedBy'', ''updatedAt''} \<longrightarrow> d2 k = ?d k) \<and>
       d2 ''updatedAt'' = Some (Obj ''t2'') \<and> d2 ''lastUpdatedBy'' = Some (Str ''desk-1'')" ..
  note d2 = dd2 [THEN conjunct1]
    dd2 [THEN conjunct2, THEN conjunct2, THEN conjunct1]
    dd2 [THEN conjunct2, THEN conjunct2, THEN conjunct2, THEN conjunct2, THEN conjunct1]
    dd2 [THEN conjunct2, THEN conjunct2, THEN conjunct2, THEN conjunct2, THEN conjunct2, THEN conjunct1]
    dd2 [THEN conjunct2, THEN conjunct2, THEN conjunct2, THEN conjunct2, THEN conjunct2, THEN conjunct2]
  have 1: "map (field (the (map_of ?s1 ''2024-01-04'')))
       [''directional'', ''quick_fact'', ''procedural'', ''research'', ''technology'',
        ''createdAt'', ''lastUpdatedBy'', ''date''] =
     [Num 0, Num 0, Num 0, Num 1, Num 0, Obj ''t1'', Str ''desk-1'', Str ''2024-01-04'']"
    using d1(2) by (simp add: d1(1,3,4,5) field_def QUESTION_TYPES_def)
  have r: "d2 ''research'' = Some (Num 6)"
    using d2(2) by (simp add: numeric_or_missing_def count_field_def)
  have o: "d2 ''directional'' = None" "d2 ''quick_fact'' = Some (Num 1)"
      "d2 ''date'' = Some (Str ''2024-01-03'')"
    using d2(3) by simp_all
  have 2: "map (field (the (map_of ?s2 ''2024-01-03'')))
       [''directional'', ''quick_fact'', ''research'', ''updatedAt'', ''lastUpdatedBy'', ''date''] =
     [Undefined, Num 1, Num 6, Obj ''t2'', Str ''desk-1'', Str ''2024-01-03'']"
    by (simp add: d2(1,4,5) r o field_def)
  show ?thesis using a n 1 2 by (intro conjI)
qed

text \<open>
  Counting keeps the collection one of daily documents, so the collections for which the
  weekly fetch is characterised above are the ones the program itself builds.
\<close>

lemma set_update_subset: "set (AList.update k v al) \<subseteq> insert (k, v) (set al)"
  by (induction al) auto

lemma handleCount_daily_store:
  assumes "daily_store s" and "is_date_id today" and "typeId \<in> type_id ` set QUESTION_TYPES"
  shows "daily_store (snd (handleCount outcome now today typeId (st, s)))"
proof -
  have tid: "typeId \<noteq> ''date''"
    using assms(3) category_not_metadata by auto
  have upd: "daily_store (AList.update today d s)" if "d ''date'' = Some (Str today)" for d
  proof -
    have "daily_document (today, d)"
      using that assms(2) by (simp add: daily_document_def)
    then have "list_all daily_document (AList.update today d s)"
      using assms(1) set_update_subset [of today d s]
      by (auto simp: daily_store_def list_all_iff)
    then show ?thesis
      using assms(1) by (simp add: daily_store_def AList.distinct_update)
  qed
  have "daily_store (transaction_body now (userId st) today typeId s)"
  proof (cases "map_of s today")
    case None
    then show ?thesis by (simp add: transaction_body_def upd)
  next
    case (Some d)
    then have "(today, d) \<in> set s" by (rule map_of_SomeD)
    then have "d ''date'' = Some (Str today)"
      using daily_store_date [OF assms(1)] by fastforce
    with Some tid show ?thesis by (simp add: transaction_body_def upd)
  qed
  then show ?thesis
    using assms(1) by (simp add: handleCount_def split: tx_outcome.splits)
qed


section \<open>Export\<close>

lemma report_row_keys:
  "foldl (\<lambda>r t. AList.update (type_name t) (cell t) r) [(''Date'', d)] QUESTION_TYPES =
   (''Date'', d) # map (\<lambda>t. (type_name t, cell t)) QUESTION_TYPES"
  by (simp add: QUESTION_TYPES_def)

text \<open>
  C8: where the browser supports the download attribute, the export delivers a file named
  \<^verbatim>\<open>ref_question_log_<today>.csv\<close> whose content is the CSV text of one record per
  day, with the keys \<open>Date\<close> and then the category names in registry order, followed by
  the totals record labelled \<open>TOTAL WEEKLY COUNT\<close>.  A missing count is rendered as 0, and
  for numeric or missing counts the cells of the totals record are the per-category sums.
\<close>

theorem handleExportCSV_report:
  "handleExportCSV True today st =
     Some \<lparr>filename = ''ref_question_log_'' @ today @ ''.csv'',
           mime = ''text/csv;charset=utf-8;'',
           content = convertToCSV
             (map (\<lambda>day. (''Date'', field day ''date'') #
                      map (\<lambda>t. (type_name t, js_or (field day (type_id t)) (Num 0))) QUESTION_TYPES)
                (weeklySummary st) @
              [(''Date'', Str ''TOTAL WEEKLY COUNT'') #
                 map (\<lambda>t. (type_name t,
                           js_or (field (weeklyTotals (weeklySummary st)) (type_id t)) (Num 0)))
                   QUESTION_TYPES])\<rparr> \<and>
   (day (type_id t) = None \<longrightarrow>
      to_string (js_or (field day (type_id t)) (Num 0)) = ''0'') \<and>
   ((\<forall>day\<in>set (weeklySummary st). \<forall>t\<in>set QUESTION_TYPES. numeric_or_missing (day (type_id t))) \<longrightarrow>
      map (\<lambda>t. js_or (field (weeklyTotals (weeklySummary st)) (type_id t)) (Num 0)) QUESTION_TYPES =
      map (\<lambda>t. Num (\<Sum>day\<leftarrow>weeklySummary st. count_field day (type_id t))) QUESTION_TYPES)"
proof (intro conjI impI)
  show "handleExportCSV True today st =
     Some \<lparr>filename = ''ref_question_log_'' @ today @ ''.csv'',
           mime = ''text/csv;charset=utf-8;'',
           content = convertToCSV
             (map (\<lambda>day. (''Date'', field day ''date'') #
                      map (\<lambda>t. (type_name t, js_or (field day (type_id t)) (Num 0))) QUESTION_TYPES)
                (weeklySummary st) @
              [(''Date'', Str ''TOTAL WEEKLY COUNT'') #
                 map (\<lambda>t. (type_name t,
                           js_or (field (weeklyTotals (weeklySummary st)) (type_id t)) (Num 0)))
                   QUESTION_TYPES])\<rparr>"
    by (simp only: handleExportCSV_def Let_def reportData_def totalsRow_def report_row_keys if_True)
  show "to_string (js_or (field day (type_id t)) (Num 0)) = ''0''" if "day (type_id t) = None"
    using that by (simp add: field_def js_or_def number_to_string_def digit_char_def)
  assume num: "\<forall>day\<in>set (weeklySummary st). \<forall>t\<in>set QUESTION_TYPES. numeric_or_missing (day (type_id t))"
  show "map (\<lambda>t. js_or (field (weeklyTotals (weeklySummary st)) (type_id t)) (Num 0)) QUESTION_TYPES =
      map (\<lambda>t. Num (\<Sum>day\<leftarrow>weeklySummary st. count_field day (type_id t))) QUESTION_TYPES"
  proof (rule map_cong [OF refl])
    fix t assume t: "t \<in> set QUESTION_TYPES"
    have "numeric_or_missing (weeklyTotals (weeklySummary st) (type_id t))"
      using weeklyTotals_counts(1) [OF num] by (simp add: numeric_totals_def)
    then show "js_or (field (weeklyTotals (weeklySummary st)) (type_id t)) (Num 0) =
               Num (\<Sum>day\<leftarrow>weeklySummary st. count_field day (type_id t))"
      using weeklyTotals_counts(2) [OF num t] by (simp add: js_or_zero)
  qed
qed

theorem handleExportCSV_report_witness:
  \<open>handleExportCSV True ''2024-01-03''
     (example_state\<lparr>weeklySummary :=
        [[''date'' \<mapsto> Str ''2024-01-02''],
         [''date'' \<mapsto> Str ''2024-01-03'', ''research'' \<mapsto> Num 5, ''quick_fact'' \<mapsto> Num 1]]\<rparr>) =
   Some \<lparr>filename = ''ref_question_log_2024-01-03.csv'',
         mime = ''text/csv;charset=utf-8;'',
         content =
           ''Date,Directional,Quick Fact/Ready Ref.,Policy/Procedural,Research/Complex,Technology/Equip.'' @
           ''\<newline>"2024-01-02","0","0","0","0","0"'' @
           ''\<newline>"2024-01-03","0","1","0","5","0"'' @
           ''\<newline>"TOTAL WEEKLY COUNT","0","1","0","5","0"''\<rparr>\<close>
proof -
  let ?ws = "[[''date'' \<mapsto> Str ''2024-01-02''],
         [''date'' \<mapsto> Str ''2024-01-03'', ''research'' \<mapsto> Num 5, ''quick_fact'' \<mapsto> Num 1]]"
  let ?st = "example_state\<lparr>weeklySummary := ?ws\<rparr>"
  have num: "\<forall>day\<in>set (weeklySummary ?st). \<forall>t\<in>set QUESTION_TYPES. numeric_or_missing (day (type_id t))"
    by (simp add: QUESTION_TYPES_def numeric_or_missing_def)
  note c = handleExportCSV_report [of "''2024-01-03''" ?st]
  from c num have tot:
    "map (\<lambda>t. js_or (field (weeklyTotals (weeklySummary ?st)) (type_id t)) (Num 0)) QUESTION_TYPES =
      map (\<lambda>t. Num (\<Sum>day\<leftarrow>weeklySummary ?st. count_field day (type_id t))) QUESTION_TYPES"
    by blast
  from c have "handleExportCSV True ''2024-01-03'' ?st =
     Some \<lparr>filename = ''ref_question_log_'' @ ''2024-01-03'' @ ''.csv'',
           mime = ''text/csv;charset=utf-8;'',
           content = convertToCSV
             (map (\<lambda>day. (''Date'', field day ''date'') #
                      map (\<lambda>t. (type_name t, js_or (field day (type_id t)) (Num 0))) QUESTION_TYPES)
                (weeklySummary ?st) @
              [(''Date'', Str ''TOTAL WEEKLY COUNT'') #
                 map (\<lambda>t. (type_name t,
                           js_or (field (weeklyTotals (weeklySummary ?st)) (type_id t)) (Num 0)))
                   QUESTION_TYPES])\<rparr>"
    by blast
  then show ?thesis
    using tot
    by (simp add: QUESTION_TYPES_def field_def js_or_def count_field_def csv_eval)
qed

end
